theory Spec2Isabelle
  imports Main "HOL-Library.List_Lexorder"
begin

section \<open>Characters and strings\<close>

text \<open>
  The program is \<^verbatim>\<open>generate_changelog.py\<close>. Its strings are Python \<^verbatim>\<open>str\<close> values; here a
  string is a \<^typ>\<open>string\<close> and a \<^typ>\<open>char\<close> stands for the code point of the same number, so
  the model covers every text whose code points are below 256. The character classes below
  are those of Python's \<^verbatim>\<open>re\<close> and \<^verbatim>\<open>str\<close> on that range.
\<close>

abbreviation NL :: char where
  "NL \<equiv> CHR 0x0A"

abbreviation CR :: char where
  "CR \<equiv> CHR 0x0D"

text \<open>\<^verbatim>\<open>[a-zA-Z]\<close>\<close>

definition is_ascii_letter :: "char \<Rightarrow> bool" where
  "is_ascii_letter c =
     (let n = (of_char c :: nat) in (65 \<le> n \<and> n \<le> 90) \<or> (97 \<le> n \<and> n \<le> 122))"

text \<open>\<^verbatim>\<open>\d\<close>: the decimal digits (category Nd); below 256 these are \<^verbatim>\<open>0\<close> to \<^verbatim>\<open>9\<close>.\<close>

definition is_digit :: "char \<Rightarrow> bool" where
  "is_digit c = (let n = (of_char c :: nat) in 48 \<le> n \<and> n \<le> 57)"

text \<open>
  \<^verbatim>\<open>\s\<close>, and the characters removed by \<^verbatim>\<open>str.strip()\<close>: tab, line feed, vertical tab,
  form feed, carriage return, the four separators 0x1C to 0x1F, space, NEL (0x85) and the
  no-break space (0xA0).
\<close>

definition is_space :: "char \<Rightarrow> bool" where
  "is_space c =
     (let n = (of_char c :: nat) in (9 \<le> n \<and> n \<le> 13) \<or> (28 \<le> n \<and> n \<le> 32) \<or> n = 133 \<or> n = 160)"

text \<open>
  \<^verbatim>\<open>\w\<close>: alphanumeric characters and the underscore. Below 256 the alphanumerics are the
  ASCII letters and digits, the ordinal indicators 0xAA and 0xBA, the superscript digits 0xB2,
  0xB3 and 0xB9, the micro sign 0xB5, the fractions 0xBC to 0xBE and the letters 0xC0 to 0xFF
  without the multiplication and division signs 0xD7 and 0xF7.
\<close>

definition is_word :: "char \<Rightarrow> bool" where
  "is_word c =
     (let n = (of_char c :: nat) in
        (48 \<le> n \<and> n \<le> 57) \<or> (65 \<le> n \<and> n \<le> 90) \<or> n = 95 \<or> (97 \<le> n \<and> n \<le> 122) \<or>
        n = 170 \<or> n = 178 \<or> n = 179 \<or> n = 181 \<or> n = 185 \<or> n = 186 \<or>
        (188 \<le> n \<and> n \<le> 190) \<or> (192 \<le> n \<and> n \<le> 214) \<or> (216 \<le> n \<and> n \<le> 246) \<or>
        (248 \<le> n \<and> n \<le> 255))"

text \<open>The line boundaries of \<^verbatim>\<open>str.splitlines()\<close>.\<close>

definition is_linebreak :: "char \<Rightarrow> bool" where
  "is_linebreak c =
     (let n = (of_char c :: nat) in (10 \<le> n \<and> n \<le> 13) \<or> (28 \<le> n \<and> n \<le> 30) \<or> n = 133)"

text \<open>\<^verbatim>\<open>str.lower()\<close> on one character.\<close>

definition lower_char :: "char \<Rightarrow> char" where
  "lower_char c =
     (let n = (of_char c :: nat) in
        if (65 \<le> n \<and> n \<le> 90) \<or> (192 \<le> n \<and> n \<le> 214) \<or> (216 \<le> n \<and> n \<le> 222)
        then char_of (n + 32) else c)"

definition lower :: "string \<Rightarrow> string" where
  "lower s = map lower_char s"

text \<open>
  \<^verbatim>\<open>str.upper()\<close> on one character; the result is a string, because the capital of the sharp s
  (0xDF) is \<^verbatim>\<open>SS\<close>. The capitals of the micro sign (0xB5) and of the y with diaeresis (0xFF)
  are the code points 0x39C and 0x178, which a \<^typ>\<open>char\<close> cannot hold: the model leaves these
  two letters as they are.
\<close>

definition upper_char :: "char \<Rightarrow> string" where
  "upper_char c =
     (let n = (of_char c :: nat) in
        if (97 \<le> n \<and> n \<le> 122) \<or> (224 \<le> n \<and> n \<le> 246) \<or> (248 \<le> n \<and> n \<le> 254)
        then [char_of (n - 32)]
        else if n = 223 then ''SS'' else [c])"

text \<open>\<^verbatim>\<open>s.startswith(p)\<close>, and a literal pattern matched at the start of \<open>s\<close>.\<close>

definition starts_with :: "string \<Rightarrow> string \<Rightarrow> bool" where
  "starts_with p s = (take (length p) s = p)"

text \<open>A literal pattern matched at the start of \<open>s\<close> under \<^verbatim>\<open>re.IGNORECASE\<close>.\<close>

definition ci_starts_with :: "string \<Rightarrow> string \<Rightarrow> bool" where
  "ci_starts_with p s = (lower (take (length p) s) = lower p)"

text \<open>\<^verbatim>\<open>re.search\<close> of a literal pattern: some suffix of \<open>s\<close> starts with it.\<close>

fun contains :: "string \<Rightarrow> string \<Rightarrow> bool" where
  "contains p [] = starts_with p []"
| "contains p (c # cs) = (starts_with p (c # cs) \<or> contains p cs)"

text \<open>\<^verbatim>\<open>s.strip()\<close>, \<^verbatim>\<open>s.rstrip("\n")\<close> and \<^verbatim>\<open>s.lstrip("v")\<close>.\<close>

definition strip :: "string \<Rightarrow> string" where
  "strip s = rev (dropWhile is_space (rev (dropWhile is_space s)))"

definition rstrip_nl :: "string \<Rightarrow> string" where
  "rstrip_nl s = rev (dropWhile (\<lambda>c. c = NL) (rev s))"


text \<open>\<^verbatim>\<open>sep.join(xs)\<close>\<close>

fun join :: "string \<Rightarrow> string list \<Rightarrow> string" where
  "join sep [] = []"
| "join sep [x] = x"
| "join sep (x # y # ys) = x @ sep @ join sep (y # ys)"

text \<open>\<^verbatim>\<open>s.split(d)\<close> for a one-character separator: always at least one field.\<close>

fun split_char :: "char \<Rightarrow> string \<Rightarrow> string list" where
  "split_char d [] = [[]]"
| "split_char d (c # cs) =
     (if c = d then [] # split_char d cs
      else (c # hd (split_char d cs)) # tl (split_char d cs))"

text \<open>
  \<^verbatim>\<open>s.splitlines()\<close>: the text is cut at every line boundary, \<^verbatim>\<open>\r\n\<close> counting as one
  boundary; a boundary at the very end opens no further line and the empty text has no line.
\<close>

function splitlines :: "string \<Rightarrow> string list" where
  "splitlines s =
     (if s = [] then []
      else
        let line = takeWhile (\<lambda>c. \<not> is_linebreak c) s;
            rest = dropWhile (\<lambda>c. \<not> is_linebreak c) s
        in case rest of
             [] \<Rightarrow> [line]
           | c # r \<Rightarrow>
               line # splitlines (if c = CR \<and> r \<noteq> [] \<and> hd r = NL then tl r else r))"
  by pat_completeness auto
termination
proof (relation "measure length")
  show "wf (measure length)" by simp
next
  fix s :: string and line rest c r
  assume s: "s \<noteq> []" and rest: "rest = dropWhile (\<lambda>c. \<not> is_linebreak c) s"
    and cr: "rest = c # r"
  have "length rest \<le> length s"
    unfolding rest by (rule length_dropWhile_le)
  moreover have "length (if c = CR \<and> r \<noteq> [] \<and> hd r = NL then tl r else r) \<le> length r"
    by simp
  ultimately show "(if c = CR \<and> r \<noteq> [] \<and> hd r = NL then tl r else r, s) \<in> measure length"
    using cr by simp
qed

declare splitlines.simps [simp del]

section \<open>Data classes\<close>

text \<open>
  \<^verbatim>\<open>Config\<close> and \<^verbatim>\<open>Entry\<close>. The field \<^verbatim>\<open>text\<close> of an entry is written \<open>text'\<close>, the path of
  the changelog is its name.
\<close>

record Config =
  version :: string
  repo_url :: string
  tag_prefix :: string
  changelog_path :: string
  exclude_types :: "string set"
  today :: string

record Entry =
  category :: string
  text' :: string

section \<open>Constants\<close>

definition CATEGORY_ORDER :: "string list" where
  "CATEGORY_ORDER =
     [''Breaking Changes'', ''Removed'', ''Deprecated'', ''Added'', ''Changed'', ''Fixed'',
      ''Security'']"

text \<open>The dictionary \<^verbatim>\<open>_TYPE_TO_CATEGORY\<close>, read with \<^const>\<open>map_of\<close>.\<close>

definition TYPE_TO_CATEGORY :: "(string \<times> string) list" where
  "TYPE_TO_CATEGORY =
     [(''feat'', ''Added''), (''fix'', ''Fixed''), (''security'', ''Security''),
      (''deprecate'', ''Deprecated''), (''revert'', ''Removed'')]"

section \<open>Rendering a section\<close>

text \<open>
  \<^verbatim>\<open>build_section\<close>: the loop over \<^verbatim>\<open>CATEGORY_ORDER\<close> with its accumulator \<^verbatim>\<open>lines\<close>, then
  the join with line feeds.
\<close>

fun build_section_loop :: "Entry list \<Rightarrow> string list \<Rightarrow> string list \<Rightarrow> string list" where
  "build_section_loop entries lines [] = lines"
| "build_section_loop entries lines (cat # cats) =
     (let cat_entries = map text' (filter (\<lambda>e. category e = cat) entries)
      in if cat_entries = [] then build_section_loop entries lines cats
         else build_section_loop entries
                (((lines @ [''### '' @ cat, '''']) @ cat_entries) @ ['''']) cats)"

definition build_section :: "Entry list \<Rightarrow> string" where
  "build_section entries = join [NL] (build_section_loop entries [] CATEGORY_ORDER)"

text \<open>
  The block of one category in the words of the specification: nothing when no entry has the
  category, otherwise the level-3 heading, a blank line, the lines of the entries of that
  category in input order, and a blank line.
\<close>

definition category_block :: "Entry list \<Rightarrow> string \<Rightarrow> string list" where
  "category_block entries cat =
     (if filter (\<lambda>e. category e = cat) entries = [] then []
      else [''### '' @ cat, ''''] @ map text' (filter (\<lambda>e. category e = cat) entries) @ [''''])"

section \<open>The regular expressions\<close>

text \<open>
  Each compiled pattern of the program becomes a matcher that reads the text from left to
  right as the pattern does. Where a repetition is followed by a character that the repeated
  class excludes, a shorter repetition can never succeed where the longest fails, and the
  matcher takes the longest run. The three places where this is not so (the blanks before the
  description of a commit, the text of a version heading, the text between a merge and its
  target branch) are explained where they stand.
\<close>

text \<open>
  \<^verbatim>\<open>$\<close> without \<^verbatim>\<open>re.MULTILINE\<close>: the end of the text, or the position before a line feed
  that ends the text.
\<close>

definition at_end :: "string \<Rightarrow> bool" where
  "at_end s = (s = [] \<or> s = [NL])"

text \<open>\<^verbatim>\<open>\d+\<close> at the start of \<open>s\<close>: the text after the longest run of digits.\<close>

definition eat_digits :: "string \<Rightarrow> string option" where
  "eat_digits s = (if takeWhile is_digit s = [] then None else Some (dropWhile is_digit s))"

text \<open>One literal character, and one optional literal character.\<close>

definition eat_char :: "char \<Rightarrow> string \<Rightarrow> string option" where
  "eat_char d s = (case s of [] \<Rightarrow> None | c # r \<Rightarrow> if c = d then Some r else None)"

definition eat_optional :: "char \<Rightarrow> string \<Rightarrow> string" where
  "eat_optional d s = (case s of [] \<Rightarrow> s | c # r \<Rightarrow> if c = d then r else s)"

text \<open>\<^verbatim>\<open>re.search\<close> as a truth value: the pattern matches at the start of some suffix.\<close>

fun search :: "(string \<Rightarrow> bool) \<Rightarrow> string \<Rightarrow> bool" where
  "search p [] = p []"
| "search p (c # cs) = (p (c # cs) \<or> search p cs)"

subsection \<open>\<^verbatim>\<open>_CC_REGEX\<close>\<close>

text \<open>
  \<^verbatim>\<open>^(?P<type>[a-zA-Z]+)(?:\([^)]*\))?(?P<bang>!)?:\s*(?P<desc>.*)$\<close>, with \<^verbatim>\<open>match\<close>. The
  result holds the groups \<^verbatim>\<open>type\<close>, \<^verbatim>\<open>bang\<close> (as a truth value: the group is \<^verbatim>\<open>!\<close>) and
  \<^verbatim>\<open>desc\<close>. The scope is taken when a closing parenthesis follows the opening one; the dot
  excludes the line feed only. After the colon the longest run of blanks is skipped: what
  follows it must be free of line feeds up to the end, and a shorter run of blanks would
  leave the same text, and more, to the description, so it cannot match where the longest
  fails.
\<close>

definition skip_scope :: "string \<Rightarrow> string" where
  "skip_scope s =
     (case s of
        [] \<Rightarrow> s
      | c # r \<Rightarrow>
          if c = CHR ''(''
          then (case dropWhile (\<lambda>x. x \<noteq> CHR '')'') r of [] \<Rightarrow> s | _ # u \<Rightarrow> u)
          else s)"

definition dot_star_end :: "string \<Rightarrow> string option" where
  "dot_star_end s =
     (let d = takeWhile (\<lambda>x. x \<noteq> NL) s
      in if at_end (dropWhile (\<lambda>x. x \<noteq> NL) s) then Some d else None)"

definition cc_match :: "string \<Rightarrow> (string \<times> bool \<times> string) option" where
  "cc_match s =
     (let ty = takeWhile is_ascii_letter s;
          r1 = skip_scope (dropWhile is_ascii_letter s);
          bang = starts_with ''!'' r1;
          r2 = eat_optional (CHR ''!'') r1
      in if ty = [] then None
         else (case eat_char (CHR '':'') r2 of
                 None \<Rightarrow> None
               | Some r3 \<Rightarrow>
                   (case dot_star_end (dropWhile is_space r3) of
                      None \<Rightarrow> None
                    | Some desc \<Rightarrow> Some (ty, bang, desc))))"

subsection \<open>\<^verbatim>\<open>_PR_NUMBER_REGEX\<close> and \<^verbatim>\<open>_TRAILING_PR_REGEX\<close>\<close>

text \<open>
  \<^verbatim>\<open>\(#(\d+)\)$\<close> matched at the start of \<open>s\<close>: group 1 and the text after the match.
\<close>

definition pr_marker_at :: "string \<Rightarrow> (string \<times> string) option" where
  "pr_marker_at s =
     (if starts_with ''(#'' s then
        (case eat_digits (drop 2 s) of
           None \<Rightarrow> None
         | Some r \<Rightarrow>
             (case eat_char (CHR '')'') r of
                None \<Rightarrow> None
              | Some r' \<Rightarrow>
                  if at_end r' then Some (takeWhile is_digit (drop 2 s), r') else None))
      else None)"

text \<open>\<^verbatim>\<open>_PR_NUMBER_REGEX.search(message)\<close>: group 1 of the leftmost match.\<close>

fun pr_number_search :: "string \<Rightarrow> string option" where
  "pr_number_search [] = None"
| "pr_number_search (c # cs) =
     (case pr_marker_at (c # cs) of
        Some (n, r) \<Rightarrow> Some n
      | None \<Rightarrow> pr_number_search cs)"

text \<open>
  \<^verbatim>\<open>_TRAILING_PR_REGEX.sub("", description)\<close>, the pattern being \<^verbatim>\<open>\s*\(#\d+\)$\<close>: the
  leftmost match is removed. What follows a match is empty or one line feed, where the
  pattern cannot match again, so the scan stops there.
\<close>

fun trailing_pr_sub :: "string \<Rightarrow> string" where
  "trailing_pr_sub [] = []"
| "trailing_pr_sub (c # cs) =
     (case pr_marker_at (dropWhile is_space (c # cs)) of
        Some (n, r) \<Rightarrow> r
      | None \<Rightarrow> c # trailing_pr_sub cs)"

subsection \<open>\<^verbatim>\<open>_SEMVER_TAG_REGEX\<close>, \<^verbatim>\<open>_PRE_RELEASE_REGEX\<close> and the prefix pattern\<close>




subsection \<open>\<^verbatim>\<open>_SKIP_PATTERNS\<close>\<close>

text \<open>
  The five alternatives anchored at the start of the message, then the two that may match
  anywhere: \<^verbatim>\<open>[Mm]erge.*to (main|master|workstation)\<close> and \<^verbatim>\<open>[Mm]erge (main|master) to\<close>.
  Only the truth value of the search is used, so the order of the alternatives does not
  matter. After a merge the target may start at any later position that no line feed
  separates from it: \<open>merge_to_tail\<close> tries each in turn.
\<close>

definition skip_anchored :: "string \<Rightarrow> bool" where
  "skip_anchored s =
     (starts_with ''Merge pull request'' s \<or> starts_with ''Merge branch'' s \<or>
      starts_with ''Merge remote'' s \<or> starts_with ''Prepare release'' s \<or>
      (starts_with ''Create '' s \<and> (case drop 7 s of [] \<Rightarrow> False | c # r \<Rightarrow> is_digit c)))"

fun merge_to_tail :: "string \<Rightarrow> bool" where
  "merge_to_tail [] = False"
| "merge_to_tail (c # cs) =
     (starts_with ''to main'' (c # cs) \<or> starts_with ''to master'' (c # cs) \<or>
      starts_with ''to workstation'' (c # cs) \<or> (c \<noteq> NL \<and> merge_to_tail cs))"

definition skip_floating_at :: "string \<Rightarrow> bool" where
  "skip_floating_at s =
     ((starts_with ''Merge'' s \<or> starts_with ''merge'' s) \<and>
      (merge_to_tail (drop 5 s) \<or> starts_with '' main to'' (drop 5 s) \<or>
       starts_with '' master to'' (drop 5 s)))"

definition skip_search :: "string \<Rightarrow> bool" where
  "skip_search message = (skip_anchored message \<or> search skip_floating_at message)"

subsection \<open>\<^verbatim>\<open>_BREAKING_REGEX\<close>\<close>

text \<open>
  \<^verbatim>\<open>\bBREAKING\b\<close> under \<^verbatim>\<open>re.IGNORECASE\<close>, with \<^verbatim>\<open>search\<close>. A word boundary lies between
  a word character and a character that is none, the outside of the text counting as none;
  the scan carries the character before the current position.
\<close>

definition is_word_opt :: "char option \<Rightarrow> bool" where
  "is_word_opt c = (case c of None \<Rightarrow> False | Some x \<Rightarrow> is_word x)"

definition word_boundary :: "char option \<Rightarrow> char option \<Rightarrow> bool" where
  "word_boundary prev next = (is_word_opt prev \<noteq> is_word_opt next)"

definition first_char :: "string \<Rightarrow> char option" where
  "first_char s = (case s of [] \<Rightarrow> None | c # r \<Rightarrow> Some c)"

definition breaking_at :: "char option \<Rightarrow> string \<Rightarrow> bool" where
  "breaking_at prev s =
     (word_boundary prev (first_char s) \<and> ci_starts_with ''BREAKING'' s \<and>
      word_boundary (first_char (drop 7 s)) (first_char (drop 8 s)))"

fun breaking_scan :: "char option \<Rightarrow> string \<Rightarrow> bool" where
  "breaking_scan prev [] = breaking_at prev []"
| "breaking_scan prev (c # cs) = (breaking_at prev (c # cs) \<or> breaking_scan (Some c) cs)"

definition breaking_search :: "string \<Rightarrow> bool" where
  "breaking_search description = breaking_scan None description"

subsection \<open>The patterns of the changelog document\<close>

text \<open>\<^verbatim>\<open>^##\s+\[Unreleased\]\<close> under \<^verbatim>\<open>re.IGNORECASE\<close>, with \<^verbatim>\<open>match\<close>.\<close>

definition unreleased_heading_match :: "string \<Rightarrow> bool" where
  "unreleased_heading_match s =
     (starts_with ''##'' s \<and> takeWhile is_space (drop 2 s) \<noteq> [] \<and>
      ci_starts_with ''[Unreleased]'' (dropWhile is_space (drop 2 s)))"

text \<open>
  \<^verbatim>\<open>^##\s+\[.+\]\<close>, with \<^verbatim>\<open>match\<close>: after the opening bracket a closing bracket must follow
  at least one character, with no line feed before it.
\<close>

definition version_heading_match :: "string \<Rightarrow> bool" where
  "version_heading_match s =
     (starts_with ''##'' s \<and> takeWhile is_space (drop 2 s) \<noteq> [] \<and>
      (case dropWhile is_space (drop 2 s) of
         [] \<Rightarrow> False
       | c # r \<Rightarrow> c = CHR ''['' \<and> CHR '']'' \<in> set (tl (takeWhile (\<lambda>x. x \<noteq> NL) r))))"

text \<open>\<^verbatim>\<open>^\[unreleased\]:\<close> under \<^verbatim>\<open>re.IGNORECASE\<close>, with \<^verbatim>\<open>match\<close>.\<close>

definition unreleased_link_match :: "string \<Rightarrow> bool" where
  "unreleased_link_match line = ci_starts_with ''[unreleased]:'' line"

section \<open>Subprocesses\<close>

text \<open>
  The program reads the repository and the hosting service through \<^verbatim>\<open>subprocess.run\<close>. The
  world outside is a function from the command line to the completed process (exit status
  and standard output, as text); the state threaded through the program records the
  commands that were run, in order.
\<close>

record completed_process =
  returncode :: int
  stdout :: string

record world =
  respond :: "string list \<Rightarrow> completed_process"
  calls :: "string list list"

definition subprocess_run :: "string list \<Rightarrow> world \<Rightarrow> completed_process \<times> world" where
  "subprocess_run cmd w = (respond w cmd, w\<lparr>calls := calls w @ [cmd]\<rparr>)"

definition run_cmd :: "string list \<Rightarrow> world \<Rightarrow> string \<times> world" where
  "run_cmd cmd w =
     (let (result, w') = subprocess_run cmd w
      in (if returncode result \<noteq> 0 then '''' else strip (stdout result), w'))"

section \<open>Classifying a commit\<close>

definition map_category :: "string \<Rightarrow> bool \<Rightarrow> string" where
  "map_category cc_type breaking =
     (if breaking then ''Breaking Changes''
      else (case map_of TYPE_TO_CATEGORY cc_type of None \<Rightarrow> ''Changed'' | Some c \<Rightarrow> c))"

definition capitalise_first :: "string \<Rightarrow> string" where
  "capitalise_first t = (case t of [] \<Rightarrow> t | c # r \<Rightarrow> upper_char c @ r)"

definition fetch_pr_title :: "string \<Rightarrow> world \<Rightarrow> string option \<times> world" where
  "fetch_pr_title pr_number w =
     (let (title, w') =
            run_cmd [''gh'', ''pr'', ''view'', pr_number, ''--json'', ''title'', ''--jq'', ''.title''] w
      in (if title = [] then None else Some title, w'))"

definition parse_commit :: "string \<Rightarrow> string \<times> bool \<times> string" where
  "parse_commit title =
     (let (cc_type, breaking, description) =
            (case cc_match title of
               None \<Rightarrow> ('''', False, title)
             | Some (ty, bang, desc) \<Rightarrow> (lower ty, bang, desc))
      in (cc_type, (if breaking_search description then True else breaking), description))"

text \<open>
  The title that \<^verbatim>\<open>_entry_from_commit\<close> classifies: the title fetched for the number of the
  trailing marker when there is a marker and the lookup gives a title, the message otherwise.
\<close>

definition resolve_title :: "string \<Rightarrow> world \<Rightarrow> string \<times> world" where
  "resolve_title message w =
     (case pr_number_search message of
        None \<Rightarrow> (message, w)
      | Some pr_number \<Rightarrow>
          (case fetch_pr_title pr_number w of
             (None, w') \<Rightarrow> (message, w')
           | (Some pr_title, w') \<Rightarrow> (pr_title, w')))"

definition entry_from_commit :: "string \<Rightarrow> Config \<Rightarrow> world \<Rightarrow> Entry option \<times> world" where
  "entry_from_commit message cfg w =
     (if skip_search message then (None, w)
      else
        let pr_number = pr_number_search message;
            (title, w') = resolve_title message w;
            (cc_type, breaking, description) = parse_commit title
        in if \<not> breaking \<and> cc_type \<noteq> [] \<and> cc_type \<in> exclude_types cfg then (None, w')
           else
             let cat = map_category cc_type breaking;
                 description = capitalise_first description;
                 description = trailing_pr_sub description;
                 line =
                   (case pr_number of
                      Some n \<Rightarrow>
                        ''- '' @ description @ '' '' @
                        ''([#'' @ n @ '']('' @ repo_url cfg @ ''/pull/'' @ n @ ''))''
                    | None \<Rightarrow> ''- '' @ description)
             in (Some \<lparr>category = cat, text' = line\<rparr>, w'))"

section \<open>Walking the history\<close>

datatype error = ValueError









text \<open>
  \<^verbatim>\<open>_sha, message = line.split(" ", 1)\<close>: the line is cut at its first space; a line without
  a space gives one field only and the assignment raises \<^verbatim>\<open>ValueError\<close>.
\<close>

definition split_first_space :: "string \<Rightarrow> (string \<times> string) option" where
  "split_first_space line =
     (if CHR '' '' \<in> set line
      then Some (takeWhile (\<lambda>c. c \<noteq> CHR '' '') line, drop 1 (dropWhile (\<lambda>c. c \<noteq> CHR '' '') line))
      else None)"

fun collect_entries_loop ::
  "Config \<Rightarrow> Entry list \<Rightarrow> string list \<Rightarrow> world \<Rightarrow> (error + Entry list) \<times> world"
where
  "collect_entries_loop cfg entries [] w = (Inr entries, w)"
| "collect_entries_loop cfg entries (line # lines) w =
     (if strip line = [] then collect_entries_loop cfg entries lines w
      else
        (case split_first_space line of
           None \<Rightarrow> (Inl ValueError, w)
         | Some (sha, message) \<Rightarrow>
             (case entry_from_commit message cfg w of
                (None, w') \<Rightarrow> collect_entries_loop cfg entries lines w'
              | (Some entry, w') \<Rightarrow> collect_entries_loop cfg (entries @ [entry]) lines w')))"

definition collect_entries ::
  "string option \<Rightarrow> Config \<Rightarrow> world \<Rightarrow> (error + Entry list) \<times> world"
where
  "collect_entries last_tag cfg w =
     (let log_range =
            (case last_tag of
               None \<Rightarrow> ''HEAD''
             | Some t \<Rightarrow> if t \<noteq> [] then t @ ''..HEAD'' else ''HEAD'');
          (log_output, w') =
            run_cmd [''git'', ''log'', ''--first-parent'', ''--pretty=format:%H %s'', log_range] w
      in if log_output = [] then (Inr [], w')
         else collect_entries_loop cfg [] (splitlines log_output) w')"

section \<open>Changelog file manipulation\<close>

text \<open>
  \<^verbatim>\<open>_insert_version_section\<close>: the loop over the lines with its flags \<^verbatim>\<open>in_unreleased\<close> and
  \<^verbatim>\<open>inserted\<close> and its accumulator \<^verbatim>\<open>output\<close>, then the statement after the loop.
\<close>

fun insert_loop :: "string \<Rightarrow> bool \<Rightarrow> bool \<Rightarrow> string list \<Rightarrow> string list \<Rightarrow> string list" where
  "insert_loop new_section in_unreleased inserted output [] =
     (if in_unreleased \<and> \<not> inserted then output @ [[NL], new_section @ [NL]] else output)"
| "insert_loop new_section in_unreleased inserted output (line # lines) =
     (let stripped = rstrip_nl line
      in if \<not> in_unreleased \<and> unreleased_heading_match stripped
         then insert_loop new_section True inserted (output @ [line]) lines
         else if in_unreleased \<and> \<not> inserted
         then (if version_heading_match stripped
               then insert_loop new_section in_unreleased True
                      (output @ [[NL], new_section @ [NL], [NL], line]) lines
               else insert_loop new_section in_unreleased inserted (output @ [line]) lines)
         else insert_loop new_section in_unreleased inserted (output @ [line]) lines)"

definition insert_version_section :: "string list \<Rightarrow> string \<Rightarrow> string list" where
  "insert_version_section lines new_section = insert_loop new_section False False [] lines"

text \<open>
  \<^verbatim>\<open>_update_comparison_links\<close>. The test \<^verbatim>\<open>if last_tag\<close> fails for \<^verbatim>\<open>None\<close> and for the empty
  string.
\<close>

fun links_loop ::
  "Config \<Rightarrow> string option \<Rightarrow> bool \<Rightarrow> string list \<Rightarrow> string list \<Rightarrow> string list"
where
  "links_loop cfg last_tag updated output [] = output"
| "links_loop cfg last_tag updated output (line # lines) =
     (if \<not> updated \<and> unreleased_link_match line
      then
        let output = output @ [''[unreleased]: '' @ repo_url cfg @ ''/compare/'' @ version cfg @ ''...HEAD'' @ [NL]];
            output =
              (case (case last_tag of None \<Rightarrow> None | Some t \<Rightarrow> if t = [] then None else Some t) of
                 Some t \<Rightarrow>
                   output @
                   [''['' @ version cfg @ '']: '' @ repo_url cfg @ ''/compare/'' @ t @ ''...'' @
                    version cfg @ [NL]]
               | None \<Rightarrow>
                   output @
                   [''['' @ version cfg @ '']: '' @ repo_url cfg @ ''/releases/tag/'' @
                    version cfg @ [NL]])
        in links_loop cfg last_tag True output lines
      else links_loop cfg last_tag updated (output @ [line]) lines)"

definition update_comparison_links ::
  "string list \<Rightarrow> Config \<Rightarrow> string option \<Rightarrow> string list"
where
  "update_comparison_links lines cfg last_tag = links_loop cfg last_tag False [] lines"

section \<open>Example inputs\<close>

text \<open>A small changelog and a configuration, used where a statement is tried on an input.\<close>

definition example_changelog :: "string list" where
  "example_changelog =
     [''# Changelog'' @ [NL], ''## [Unreleased]'' @ [NL], [NL],
      ''## [1.0.0] - 2024-01-01'' @ [NL], ''- old'' @ [NL]]"

definition example_cfg :: Config where
  "example_cfg =
     \<lparr>version = ''v1.3.0'', repo_url = ''URL'', tag_prefix = ''v'',
      changelog_path = ''CHANGELOG.md'', exclude_types = {}, today = ''2024-02-02''\<rparr>"

text \<open>
  The exclude-set as \<^verbatim>\<open>main\<close> builds it from the input \<^verbatim>\<open>INPUT_EXCLUDE_TYPES\<close>: the fields
  between commas, stripped, without the empty ones.
\<close>

definition configured_exclude_types :: "string \<Rightarrow> string set" where
  "configured_exclude_types raw =
     set (filter (\<lambda>t. t \<noteq> []) (map strip (split_char (CHR '','') raw)))"

text \<open>A world in which every command fails.\<close>

definition offline_world :: world where
  "offline_world = \<lparr>respond = (\<lambda>cmd. \<lparr>returncode = 1, stdout = ''''\<rparr>), calls = []\<rparr>"

text \<open>
  The end-to-end scenario of the specification: the log of four commits, newest first, in a
  world where the log command succeeds and every other command, the title lookups among
  them, fails.
\<close>

definition scenario_log :: string where
  "scenario_log =
     ''1a2b3c4 feat: add retry logic (#42)'' @ [NL] @
     ''2b3c4d5 fix!: correct off-by-one (#43)'' @ [NL] @
     ''3c4d5e6 Merge pull request #44 from x/y'' @ [NL] @
     ''4d5e6f7 chore: bump deps (#45)''"

definition scenario_world :: world where
  "scenario_world =
     \<lparr>respond =
        (\<lambda>cmd. if cmd = [''git'', ''log'', ''--first-parent'', ''--pretty=format:%H %s'', ''HEAD'']
               then \<lparr>returncode = 0, stdout = scenario_log\<rparr>
               else \<lparr>returncode = 1, stdout = ''''\<rparr>),
      calls = []\<rparr>"

section \<open>Tag resolution in the words of the specification\<close>









section \<open>Properties of the section builder\<close>

lemma build_section_loop_blocks:
  "build_section_loop entries lines cats = lines @ concat (map (category_block entries) cats)"
  by (induction cats arbitrary: lines) (simp_all add: category_block_def Let_def)

text \<open>
  Claim C7. For every list of entries the section builder emits the blocks of the seven
  categories in the fixed order Breaking Changes, Removed, Deprecated, Added, Changed, Fixed,
  Security, joined by line feeds: each block is a level-3 heading and the lines of the entries
  of that category in their input order, a category without entries contributes nothing, and
  the empty list of entries gives the empty string.
\<close>

theorem build_section_category_order:
  "build_section entries =
     join [NL]
       (category_block entries ''Breaking Changes'' @ category_block entries ''Removed'' @
        category_block entries ''Deprecated'' @ category_block entries ''Added'' @
        category_block entries ''Changed'' @ category_block entries ''Fixed'' @
        category_block entries ''Security'')
   \<and> (\<forall>cat. filter (\<lambda>e. category e = cat) entries = [] \<longrightarrow> category_block entries cat = [])
   \<and> (\<forall>cat. filter (\<lambda>e. category e = cat) entries \<noteq> [] \<longrightarrow>
        category_block entries cat =
          [''### '' @ cat, ''''] @ map text' (filter (\<lambda>e. category e = cat) entries) @ [''''])
   \<and> build_section [] = ''''"
  by (simp add: build_section_def build_section_loop_blocks CATEGORY_ORDER_def
      category_block_def)

theorem build_section_category_order_witness:
  "build_section
     [\<lparr>category = ''Fixed'', text' = ''- One''\<rparr>,
      \<lparr>category = ''Added'', text' = ''- Two''\<rparr>,
      \<lparr>category = ''Fixed'', text' = ''- Three''\<rparr>] =
   join [NL] [''### Added'', '''', ''- Two'', '''', ''### Fixed'', '''', ''- One'', ''- Three'', '''']"
  using build_section_category_order
    [of "[\<lparr>category = ''Fixed'', text' = ''- One''\<rparr>,
          \<lparr>category = ''Added'', text' = ''- Two''\<rparr>,
          \<lparr>category = ''Fixed'', text' = ''- Three''\<rparr>]"]
  by (simp add: category_block_def)


section \<open>Properties of the section insertion\<close>

lemma insert_loop_before:
  "\<forall>l\<in>set lines. \<not> unreleased_heading_match (rstrip_nl l) \<Longrightarrow>
   insert_loop ns False ins out lines = out @ lines"
  by (induction lines arbitrary: out) simp_all

lemma insert_loop_done:
  "insert_loop ns True True out lines = out @ lines"
  by (induction lines arbitrary: out) simp_all

lemma insert_loop_awaiting_end:
  "\<forall>l\<in>set lines. \<not> version_heading_match (rstrip_nl l) \<Longrightarrow>
   insert_loop ns True False out lines = out @ lines @ [[NL], ns @ [NL]]"
  by (induction lines arbitrary: out) simp_all

lemma insert_loop_awaiting_heading:
  "\<forall>l\<in>set mid. \<not> version_heading_match (rstrip_nl l) \<Longrightarrow>
   version_heading_match (rstrip_nl h) \<Longrightarrow>
   insert_loop ns True False out (mid @ h # rest) =
     out @ mid @ [[NL], ns @ [NL], [NL], h] @ rest"
  by (induction mid arbitrary: out) (simp_all add: insert_loop_done)

lemma insert_loop_enter:
  "\<forall>l\<in>set pre. \<not> unreleased_heading_match (rstrip_nl l) \<Longrightarrow>
   unreleased_heading_match (rstrip_nl u) \<Longrightarrow>
   insert_loop ns False ins out (pre @ u # rest) = insert_loop ns True ins (out @ pre @ [u]) rest"
  by (induction pre arbitrary: out) simp_all

text \<open>
  Claim C2. For every document with a line that matches the heading of the unreleased section
  (in any letter case), the insertion pass cuts the document at the first such line and makes
  one insertion, every other line staying where it was and as it was: when a version heading
  follows, the first one is preceded by a blank line, the new section and a blank line; when
  none follows, a blank line and the new section are appended to the document.
\<close>

theorem insert_version_section_surgical:
  assumes "\<exists>l\<in>set lines. unreleased_heading_match (rstrip_nl l)"
  shows "\<exists>pre u rest.
           lines = pre @ u # rest \<and>
           (\<forall>l\<in>set pre. \<not> unreleased_heading_match (rstrip_nl l)) \<and>
           unreleased_heading_match (rstrip_nl u) \<and>
           (if \<exists>l\<in>set rest. version_heading_match (rstrip_nl l)
            then \<exists>mid h tail.
                   rest = mid @ h # tail \<and>
                   (\<forall>l\<in>set mid. \<not> version_heading_match (rstrip_nl l)) \<and>
                   version_heading_match (rstrip_nl h) \<and>
                   insert_version_section lines new_section =
                     pre @ [u] @ mid @ [[NL], new_section @ [NL], [NL], h] @ tail
            else insert_version_section lines new_section =
                   lines @ [[NL], new_section @ [NL]])"
proof -
  from assms obtain pre u rest where
    lines: "lines = pre @ u # rest" and u: "unreleased_heading_match (rstrip_nl u)"
    and pre: "\<forall>l\<in>set pre. \<not> unreleased_heading_match (rstrip_nl l)"
    using split_list_first_prop [of lines "\<lambda>l. unreleased_heading_match (rstrip_nl l)"] by blast
  have enter: "insert_version_section lines new_section =
      insert_loop new_section True False (pre @ [u]) rest"
    unfolding insert_version_section_def lines using insert_loop_enter [OF pre u] by simp
  show ?thesis
  proof (cases "\<exists>l\<in>set rest. version_heading_match (rstrip_nl l)")
    case True
    then obtain mid h tail where
      rest: "rest = mid @ h # tail" and h: "version_heading_match (rstrip_nl h)"
      and mid: "\<forall>l\<in>set mid. \<not> version_heading_match (rstrip_nl l)"
      using split_list_first_prop [of rest "\<lambda>l. version_heading_match (rstrip_nl l)"] by blast
    have "insert_version_section lines new_section =
        pre @ [u] @ mid @ [[NL], new_section @ [NL], [NL], h] @ tail"
      using enter insert_loop_awaiting_heading [OF mid h, of new_section "pre @ [u]" tail]
      by (simp add: rest)
    with lines pre u rest mid h True show ?thesis by (intro exI conjI) (auto simp del: append.simps)
  next
    case False
    then have "insert_version_section lines new_section = lines @ [[NL], new_section @ [NL]]"
      using enter insert_loop_awaiting_end [of rest new_section "pre @ [u]"]
      by (simp add: lines)
    with lines pre u False show ?thesis by (intro exI conjI) auto
  qed
qed


theorem insert_version_section_surgical_witness:
  "(\<exists>l\<in>set example_changelog. unreleased_heading_match (rstrip_nl l)) \<and>
   (\<exists>pre u rest.
      example_changelog = pre @ u # rest \<and>
      (\<forall>l\<in>set pre. \<not> unreleased_heading_match (rstrip_nl l)) \<and>
      unreleased_heading_match (rstrip_nl u) \<and>
      (if \<exists>l\<in>set rest. version_heading_match (rstrip_nl l)
       then \<exists>mid h tail.
              rest = mid @ h # tail \<and>
              (\<forall>l\<in>set mid. \<not> version_heading_match (rstrip_nl l)) \<and>
              version_heading_match (rstrip_nl h) \<and>
              insert_version_section example_changelog ''## [1.1.0] - 2024-02-02'' =
                pre @ [u] @ mid @ [[NL], ''## [1.1.0] - 2024-02-02'' @ [NL], [NL], h] @ tail
       else insert_version_section example_changelog ''## [1.1.0] - 2024-02-02'' =
              example_changelog @ [[NL], ''## [1.1.0] - 2024-02-02'' @ [NL]])) \<and>
   insert_version_section example_changelog ''## [1.1.0] - 2024-02-02'' =
     [''# Changelog'' @ [NL], ''## [Unreleased]'' @ [NL], [NL], [NL],
      ''## [1.1.0] - 2024-02-02'' @ [NL], [NL], ''## [1.0.0] - 2024-01-01'' @ [NL],
      ''- old'' @ [NL]]"
proof (intro conjI)
  show hyp: "\<exists>l\<in>set example_changelog. unreleased_heading_match (rstrip_nl l)"
    by code_simp
  show "\<exists>pre u rest.
      example_changelog = pre @ u # rest \<and>
      (\<forall>l\<in>set pre. \<not> unreleased_heading_match (rstrip_nl l)) \<and>
      unreleased_heading_match (rstrip_nl u) \<and>
      (if \<exists>l\<in>set rest. version_heading_match (rstrip_nl l)
       then \<exists>mid h tail.
              rest = mid @ h # tail \<and>
              (\<forall>l\<in>set mid. \<not> version_heading_match (rstrip_nl l)) \<and>
              version_heading_match (rstrip_nl h) \<and>
              insert_version_section example_changelog ''## [1.1.0] - 2024-02-02'' =
                pre @ [u] @ mid @ [[NL], ''## [1.1.0] - 2024-02-02'' @ [NL], [NL], h] @ tail
       else insert_version_section example_changelog ''## [1.1.0] - 2024-02-02'' =
              example_changelog @ [[NL], ''## [1.1.0] - 2024-02-02'' @ [NL]])"
    by (rule insert_version_section_surgical [OF hyp])
  show "insert_version_section example_changelog ''## [1.1.0] - 2024-02-02'' =
     [''# Changelog'' @ [NL], ''## [Unreleased]'' @ [NL], [NL], [NL],
      ''## [1.1.0] - 2024-02-02'' @ [NL], [NL], ''## [1.0.0] - 2024-01-01'' @ [NL],
      ''- old'' @ [NL]]"
    by code_simp
qed

text \<open>
  Claim C3, as the code has it. For every document without a line that matches the heading
  of the unreleased section, the insertion pass returns the lines of the document unchanged:
  the new section is not appended, and nothing is raised.
\<close>

theorem insert_version_section_no_heading:
  "\<not> (\<exists>l\<in>set lines. unreleased_heading_match (rstrip_nl l)) \<Longrightarrow>
   insert_version_section lines new_section = lines"
  using insert_loop_before [of lines new_section False "[]"]
  by (simp add: insert_version_section_def)


theorem insert_version_section_no_heading_witness:
  "\<not> (\<exists>l\<in>set [''# Changelog'' @ [NL], ''- note'' @ [NL]]. unreleased_heading_match (rstrip_nl l)) \<and>
   insert_version_section [''# Changelog'' @ [NL], ''- note'' @ [NL]] ''## [1.1.0] - 2024-02-02'' =
     [''# Changelog'' @ [NL], ''- note'' @ [NL]]"
proof -
  have hyp: "\<not> (\<exists>l\<in>set [''# Changelog'' @ [NL], ''- note'' @ [NL]].
      unreleased_heading_match (rstrip_nl l))"
    by code_simp
  from hyp insert_version_section_no_heading [OF hyp, of "''## [1.1.0] - 2024-02-02''"]
  show ?thesis by blast
qed


text \<open>
  Claim C3 as stated fails: on a document of one line that is no heading, the pass returns
  that line alone, not the line followed by a blank line and the new section.
\<close>

theorem insert_version_section_no_heading_counterexample:
  "\<not> (\<exists>l\<in>set [''# Changelog'' @ [NL]]. unreleased_heading_match (rstrip_nl l)) \<and>
   insert_version_section [''# Changelog'' @ [NL]] ''## [1.1.0] - 2024-02-02'' \<noteq>
     [''# Changelog'' @ [NL]] @ [[NL], ''## [1.1.0] - 2024-02-02'' @ [NL]] \<and>
   insert_version_section [''# Changelog'' @ [NL]] ''## [1.1.0] - 2024-02-02'' =
     [''# Changelog'' @ [NL]]"
  by code_simp

section \<open>Properties of the comparison links\<close>

lemma links_loop_done:
  "links_loop cfg last_tag True out lines = out @ lines"
  by (induction lines arbitrary: out) simp_all

lemma links_loop_no_link:
  "\<forall>l\<in>set lines. \<not> unreleased_link_match l \<Longrightarrow>
   links_loop cfg last_tag updated out lines = out @ lines"
  by (induction lines arbitrary: out) simp_all

lemma links_loop_first:
  "\<forall>l\<in>set pre. \<not> unreleased_link_match l \<Longrightarrow> unreleased_link_match line \<Longrightarrow>
   links_loop cfg last_tag False out (pre @ line # rest) =
     out @ pre @
     [''[unreleased]: '' @ repo_url cfg @ ''/compare/'' @ version cfg @ ''...HEAD'' @ [NL],
      (case last_tag of
         None \<Rightarrow> ''['' @ version cfg @ '']: '' @ repo_url cfg @ ''/releases/tag/'' @ version cfg @ [NL]
       | Some t \<Rightarrow>
           if t = [] then ''['' @ version cfg @ '']: '' @ repo_url cfg @ ''/releases/tag/'' @ version cfg @ [NL]
           else ''['' @ version cfg @ '']: '' @ repo_url cfg @ ''/compare/'' @ t @ ''...'' @ version cfg @ [NL])] @
     rest"
  by (induction pre arbitrary: out) (simp_all add: links_loop_done Let_def split: option.splits)


text \<open>
  Claim C4. The link pass leaves a document without a line that begins with
  \<^verbatim>\<open>[unreleased]:\<close> (in any letter case) as it is. Otherwise it replaces the first such line
  by the link that compares the new version with HEAD, followed by one more line: the link
  that compares the prior tag with the new version when there is a prior tag, the link to the
  release of the new version when there is none; all other lines, later lines of the same
  form among them, are copied. With the prior tag v1.2.0 and the new version v1.3.0 the line
  is replaced by exactly the two lines of the claim.
\<close>

theorem update_comparison_links_first_only:
  "((\<forall>l\<in>set lines. \<not> unreleased_link_match l) \<longrightarrow>
      update_comparison_links lines cfg last_tag = lines) \<and>
   ((\<forall>l\<in>set pre. \<not> unreleased_link_match l) \<and> unreleased_link_match line \<longrightarrow>
      (\<forall>t. last_tag = Some t \<and> t \<noteq> [] \<longrightarrow>
         update_comparison_links (pre @ line # rest) cfg last_tag =
           pre @
           [''[unreleased]: '' @ repo_url cfg @ ''/compare/'' @ version cfg @ ''...HEAD'' @ [NL],
            ''['' @ version cfg @ '']: '' @ repo_url cfg @ ''/compare/'' @ t @ ''...'' @
              version cfg @ [NL]] @
           rest) \<and>
      (last_tag = None \<longrightarrow>
         update_comparison_links (pre @ line # rest) cfg last_tag =
           pre @
           [''[unreleased]: '' @ repo_url cfg @ ''/compare/'' @ version cfg @ ''...HEAD'' @ [NL],
            ''['' @ version cfg @ '']: '' @ repo_url cfg @ ''/releases/tag/'' @ version cfg @
              [NL]] @
           rest)) \<and>
   update_comparison_links [''[unreleased]: '' @ url @ ''/compare/v1.2.0...HEAD'' @ [NL]]
       (cfg\<lparr>version := ''v1.3.0'', repo_url := url\<rparr>) (Some ''v1.2.0'') =
     [''[unreleased]: '' @ url @ ''/compare/v1.3.0...HEAD'' @ [NL],
      ''[v1.3.0]: '' @ url @ ''/compare/v1.2.0...v1.3.0'' @ [NL]]"
proof (intro conjI impI allI)
  assume "\<forall>l\<in>set lines. \<not> unreleased_link_match l"
  then show "update_comparison_links lines cfg last_tag = lines"
    by (simp add: update_comparison_links_def links_loop_no_link)
next
  fix t
  assume "(\<forall>l\<in>set pre. \<not> unreleased_link_match l) \<and> unreleased_link_match line"
    and "last_tag = Some t \<and> t \<noteq> []"
  then show "update_comparison_links (pre @ line # rest) cfg last_tag =
           pre @
           [''[unreleased]: '' @ repo_url cfg @ ''/compare/'' @ version cfg @ ''...HEAD'' @ [NL],
            ''['' @ version cfg @ '']: '' @ repo_url cfg @ ''/compare/'' @ t @ ''...'' @
              version cfg @ [NL]] @
           rest"
    using links_loop_first [of pre line cfg last_tag "[]" rest]
    by (simp add: update_comparison_links_def)
next
  assume "(\<forall>l\<in>set pre. \<not> unreleased_link_match l) \<and> unreleased_link_match line"
    and "last_tag = None"
  then show "update_comparison_links (pre @ line # rest) cfg last_tag =
           pre @
           [''[unreleased]: '' @ repo_url cfg @ ''/compare/'' @ version cfg @ ''...HEAD'' @ [NL],
            ''['' @ version cfg @ '']: '' @ repo_url cfg @ ''/releases/tag/'' @ version cfg @
              [NL]] @
           rest"
    using links_loop_first [of pre line cfg last_tag "[]" rest]
    by (simp add: update_comparison_links_def)
next
  have "unreleased_link_match (''[unreleased]: '' @ url @ ''/compare/v1.2.0...HEAD'' @ [NL])"
    by (simp add: unreleased_link_match_def ci_starts_with_def)
  then show "update_comparison_links [''[unreleased]: '' @ url @ ''/compare/v1.2.0...HEAD'' @ [NL]]
       (cfg\<lparr>version := ''v1.3.0'', repo_url := url\<rparr>) (Some ''v1.2.0'') =
     [''[unreleased]: '' @ url @ ''/compare/v1.3.0...HEAD'' @ [NL],
      ''[v1.3.0]: '' @ url @ ''/compare/v1.2.0...v1.3.0'' @ [NL]]"
    using links_loop_first [of "[]" _ "cfg\<lparr>version := ''v1.3.0'', repo_url := url\<rparr>" "Some ''v1.2.0''" "[]" "[]"]
    by (simp add: update_comparison_links_def)
qed


theorem update_comparison_links_first_only_witness:
  "unreleased_link_match (''[Unreleased]: URL/compare/v1.2.0...HEAD'' @ [NL]) \<and>
   update_comparison_links
     [''text'' @ [NL], ''[Unreleased]: URL/compare/v1.2.0...HEAD'' @ [NL],
      ''[unreleased]: second'' @ [NL]] example_cfg (Some ''v1.2.0'') =
   [''text'' @ [NL], ''[unreleased]: URL/compare/v1.3.0...HEAD'' @ [NL],
    ''[v1.3.0]: URL/compare/v1.2.0...v1.3.0'' @ [NL], ''[unreleased]: second'' @ [NL]] \<and>
   update_comparison_links
     [''text'' @ [NL], ''[Unreleased]: URL/compare/v1.2.0...HEAD'' @ [NL],
      ''[unreleased]: second'' @ [NL]] example_cfg None =
   [''text'' @ [NL], ''[unreleased]: URL/compare/v1.3.0...HEAD'' @ [NL],
    ''[v1.3.0]: URL/releases/tag/v1.3.0'' @ [NL], ''[unreleased]: second'' @ [NL]]"
proof -
  have pre: "\<forall>l\<in>set [''text'' @ [NL]]. \<not> unreleased_link_match l"
    by code_simp
  have line: "unreleased_link_match (''[Unreleased]: URL/compare/v1.2.0...HEAD'' @ [NL])"
    by code_simp
  have cfg: "version example_cfg = ''v1.3.0''" "repo_url example_cfg = ''URL''"
    by (simp_all add: example_cfg_def)
  from pre line
    update_comparison_links_first_only
      [of "[]" example_cfg "Some ''v1.2.0''" "[''text'' @ [NL]]"
         "''[Unreleased]: URL/compare/v1.2.0...HEAD'' @ [NL]" "[''[unreleased]: second'' @ [NL]]"]
    update_comparison_links_first_only
      [of "[]" example_cfg "None" "[''text'' @ [NL]]"
         "''[Unreleased]: URL/compare/v1.2.0...HEAD'' @ [NL]" "[''[unreleased]: second'' @ [NL]]"]
  show ?thesis
    by (simp add: cfg)
qed


section \<open>Properties of the classifier\<close>

text \<open>
  Claim C1. For every title, with the type, the breaking flag and the description that
  \<^verbatim>\<open>_parse_commit\<close> returns: the flag is set exactly when the title matches the
  conventional-commit pattern with the \<^verbatim>\<open>!\<close> marker or the word BREAKING occurs in the
  description; a set flag gives Breaking Changes whatever the type; otherwise the types feat,
  fix, security, deprecate and revert give Added, Fixed, Security, Deprecated and Removed, and
  every other type gives Changed, the empty type of a title that does not match the pattern
  among them. The type is the matched type in lower case.
\<close>

theorem category_resolution_precedence:
  assumes "parse_commit title = (cc_type, breaking, description)"
  shows
    "(breaking \<longleftrightarrow>
        (\<exists>ty desc. cc_match title = Some (ty, True, desc)) \<or> breaking_search description) \<and>
     (breaking \<longrightarrow> map_category cc_type breaking = ''Breaking Changes'') \<and>
     (\<not> breaking \<and> cc_type = ''feat'' \<longrightarrow> map_category cc_type breaking = ''Added'') \<and>
     (\<not> breaking \<and> cc_type = ''fix'' \<longrightarrow> map_category cc_type breaking = ''Fixed'') \<and>
     (\<not> breaking \<and> cc_type = ''security'' \<longrightarrow> map_category cc_type breaking = ''Security'') \<and>
     (\<not> breaking \<and> cc_type = ''deprecate'' \<longrightarrow> map_category cc_type breaking = ''Deprecated'') \<and>
     (\<not> breaking \<and> cc_type = ''revert'' \<longrightarrow> map_category cc_type breaking = ''Removed'') \<and>
     (\<not> breaking \<and> cc_type \<notin> {''feat'', ''fix'', ''security'', ''deprecate'', ''revert''} \<longrightarrow>
        map_category cc_type breaking = ''Changed'') \<and>
     (\<forall>ty bang desc. cc_match title = Some (ty, bang, desc) \<longrightarrow>
        cc_type = lower ty \<and> description = desc) \<and>
     (cc_match title = None \<longrightarrow> cc_type = '''' \<and> description = title)"
  using assms
  by (auto simp add: parse_commit_def map_category_def TYPE_TO_CATEGORY_def
      split: option.splits if_splits prod.splits)

theorem category_resolution_precedence_witness:
  "parse_commit ''fix!: correct off-by-one (#43)'' = (''fix'', True, ''correct off-by-one (#43)'') \<and>
   map_category ''fix'' True = ''Breaking Changes'' \<and>
   parse_commit ''FEAT(api): add retry logic'' = (''feat'', False, ''add retry logic'') \<and>
   map_category ''feat'' False = ''Added''"
proof -
  have a: "parse_commit ''fix!: correct off-by-one (#43)'' =
      (''fix'', True, ''correct off-by-one (#43)'')"
    by code_simp
  have b: "parse_commit ''FEAT(api): add retry logic'' = (''feat'', False, ''add retry logic'')"
    by code_simp
  from a b category_resolution_precedence [OF a] category_resolution_precedence [OF b]
  show ?thesis by simp
qed

section \<open>Properties of the exclude-set filter\<close>

lemma empty_type_not_configured: "[] \<notin> configured_exclude_types raw"
  by (simp add: configured_exclude_types_def)

text \<open>
  Claim C6. For every message that the noise patterns let pass, with the title that is
  classified and its parse: a breaking commit always gives an entry, of the category Breaking
  Changes, whatever the exclude-set holds, its own type included; the word BREAKING in the
  description alone makes the commit breaking; a commit that is not breaking and whose type
  is in the exclude-set gives no entry. A commit without a type has the empty type, which no
  configured exclude-set holds; a commit that is not breaking and whose type is not in the
  exclude-set gives an entry.
\<close>

theorem breaking_never_excluded:
  assumes "\<not> skip_search message"
    and "resolve_title message w = (title, w')"
    and "parse_commit title = (cc_type, breaking, description)"
  shows
    "(breaking \<longrightarrow>
        (\<exists>e. entry_from_commit message cfg w = (Some e, w') \<and>
             category e = ''Breaking Changes'')) \<and>
     (breaking_search description \<longrightarrow> breaking) \<and>
     (\<not> breaking \<and> cc_type \<noteq> [] \<and> cc_type \<in> exclude_types cfg \<longrightarrow>
        entry_from_commit message cfg w = (None, w')) \<and>
     (exclude_types cfg = configured_exclude_types raw \<and> \<not> breaking \<and>
      cc_type \<in> exclude_types cfg \<longrightarrow>
        entry_from_commit message cfg w = (None, w')) \<and>
     (\<not> breaking \<and> cc_type \<notin> exclude_types cfg \<longrightarrow>
        (\<exists>e. entry_from_commit message cfg w = (Some e, w')))"
proof (intro conjI impI)
  assume breaking
  then show "\<exists>e. entry_from_commit message cfg w = (Some e, w') \<and>
      category e = ''Breaking Changes''"
    using assms by (simp add: entry_from_commit_def map_category_def Let_def)
next
  assume "breaking_search description"
  then show breaking
    using assms(3) by (auto simp add: parse_commit_def split: option.splits prod.splits)
next
  assume "\<not> breaking \<and> cc_type \<noteq> [] \<and> cc_type \<in> exclude_types cfg"
  then show "entry_from_commit message cfg w = (None, w')"
    using assms by (simp add: entry_from_commit_def)
next
  assume a: "exclude_types cfg = configured_exclude_types raw \<and> \<not> breaking \<and>
      cc_type \<in> exclude_types cfg"
  then have "cc_type \<noteq> []"
    using empty_type_not_configured [of raw] by auto
  with a show "entry_from_commit message cfg w = (None, w')"
    using assms by (auto simp add: entry_from_commit_def)
next
  assume "\<not> breaking \<and> cc_type \<notin> exclude_types cfg"
  then show "\<exists>e. entry_from_commit message cfg w = (Some e, w')"
    using assms by (simp add: entry_from_commit_def Let_def)
qed

theorem breaking_never_excluded_witness:
  "\<not> skip_search ''chore: BREAKING drop the old api'' \<and>
   resolve_title ''chore: BREAKING drop the old api'' offline_world =
     (''chore: BREAKING drop the old api'', offline_world) \<and>
   parse_commit ''chore: BREAKING drop the old api'' =
     (''chore'', True, ''BREAKING drop the old api'') \<and>
   (\<exists>e. entry_from_commit ''chore: BREAKING drop the old api''
          (example_cfg\<lparr>exclude_types := configured_exclude_types ''chore, docs''\<rparr>) offline_world =
          (Some e, offline_world) \<and>
        category e = ''Breaking Changes'') \<and>
   \<not> skip_search ''chore: bump deps'' \<and>
   resolve_title ''chore: bump deps'' offline_world = (''chore: bump deps'', offline_world) \<and>
   parse_commit ''chore: bump deps'' = (''chore'', False, ''bump deps'') \<and>
   ''chore'' \<in> configured_exclude_types ''chore, docs'' \<and>
   entry_from_commit ''chore: bump deps''
     (example_cfg\<lparr>exclude_types := configured_exclude_types ''chore, docs''\<rparr>) offline_world =
     (None, offline_world)"
proof -
  let ?cfg = "example_cfg\<lparr>exclude_types := configured_exclude_types ''chore, docs''\<rparr>"
  have s1: "\<not> skip_search ''chore: BREAKING drop the old api''" by code_simp
  have n1: "pr_number_search ''chore: BREAKING drop the old api'' = None" by code_simp
  have r1: "resolve_title ''chore: BREAKING drop the old api'' offline_world =
     (''chore: BREAKING drop the old api'', offline_world)"
    by (simp only: resolve_title_def n1 option.case)
  have p1: "parse_commit ''chore: BREAKING drop the old api'' =
     (''chore'', True, ''BREAKING drop the old api'')" by code_simp
  have s2: "\<not> skip_search ''chore: bump deps''" by code_simp
  have n2: "pr_number_search ''chore: bump deps'' = None" by code_simp
  have r2: "resolve_title ''chore: bump deps'' offline_world = (''chore: bump deps'', offline_world)"
    by (simp only: resolve_title_def n2 option.case)
  have p2: "parse_commit ''chore: bump deps'' = (''chore'', False, ''bump deps'')" by code_simp
  have m: "''chore'' \<in> configured_exclude_types ''chore, docs''" by code_simp
  have e: "exclude_types ?cfg = configured_exclude_types ''chore, docs''" by simp
  from s1 r1 p1 s2 r2 p2 m
    breaking_never_excluded [OF s1 r1 p1, of ?cfg "''chore, docs''"]
    breaking_never_excluded [OF s2 r2 p2, of ?cfg "''chore, docs''"]
  show ?thesis by (simp only: e simp_thms) 
qed

section \<open>Properties of the breaking word\<close>

lemma lower_char_ascii_is_word:
  assumes "lower_char c = x" and "97 \<le> (of_char x :: nat)" and "(of_char x :: nat) \<le> 122"
  shows "is_word c"
proof -
  show ?thesis
  proof (cases "lower_char c = c")
    case True
    with assms show ?thesis by (simp add: is_word_def)
  next
    case False
    then have up: "(65 \<le> (of_char c :: nat) \<and> (of_char c :: nat) \<le> 90) \<or>
        (192 \<le> (of_char c :: nat) \<and> (of_char c :: nat) \<le> 214) \<or>
        (216 \<le> (of_char c :: nat) \<and> (of_char c :: nat) \<le> 222)"
      and x: "x = char_of ((of_char c :: nat) + 32)"
      using assms(1) by (auto simp add: lower_char_def Let_def split: if_splits)
    have "(of_char x :: nat) = ((of_char c :: nat) + 32) mod 256"
      unfolding x by (simp add: of_char_of)
    moreover have "(of_char c :: nat) + 32 < 256" using up by arith
    ultimately have "(of_char x :: nat) = (of_char c :: nat) + 32" by simp
    with assms(2,3) up show ?thesis by (simp add: is_word_def Let_def)
  qed
qed

lemma breaking_at_word:
  assumes w: "lower word = ''breaking''"
    and prev: "\<not> is_word_opt prev"
    and post: "post = [] \<or> \<not> is_word (hd post)"
  shows "breaking_at prev (word @ post)"
proof -
  from w obtain c1 c2 c3 c4 c5 c6 c7 c8 where
    word: "word = [c1, c2, c3, c4, c5, c6, c7, c8]"
    and c1: "lower_char c1 = CHR ''b''" and c8: "lower_char c8 = CHR ''g''"
    by (auto simp add: lower_def map_eq_Cons_conv)
  have w1: "is_word c1" by (rule lower_char_ascii_is_word [OF c1]) simp_all
  have w8: "is_word c8" by (rule lower_char_ascii_is_word [OF c8]) simp_all
  have lb: "lower ''BREAKING'' = ''breaking''" by code_simp
  have tk: "take (length ''BREAKING'') (word @ post) = word" by (simp add: word)
  have ci: "ci_starts_with ''BREAKING'' (word @ post)"
    by (simp only: ci_starts_with_def tk w lb)
  have b1: "word_boundary prev (first_char (word @ post))"
    using prev w1 by (simp add: word_boundary_def first_char_def word is_word_opt_def)
  have b2: "word_boundary (first_char (drop 7 (word @ post))) (first_char (drop 8 (word @ post)))"
    using post w8
    by (cases post) (simp_all add: word_boundary_def first_char_def word is_word_opt_def)
  from b1 ci b2 show ?thesis by (simp add: breaking_at_def)
qed

lemma breaking_scan_word:
  assumes "lower word = ''breaking''"
    and "post = [] \<or> \<not> is_word (hd post)"
    and "if pre = [] then \<not> is_word_opt prev else \<not> is_word (last pre)"
  shows "breaking_scan prev (pre @ word @ post)"
  using assms(3)
proof (induction pre arbitrary: prev)
  case Nil
  then have "breaking_at prev (word @ post)"
    using breaking_at_word [OF assms(1) _ assms(2)] by simp
  moreover from assms(1) have "word \<noteq> []" by (auto simp add: lower_def)
  ultimately show ?case by (cases word) simp_all
next
  case (Cons p ps)
  have "breaking_scan (Some p) (ps @ word @ post)"
    using Cons.prems by (intro Cons.IH) (simp add: is_word_opt_def split: if_splits)
  then show ?case by simp
qed

text \<open>
  Claim C10. For every title whose description (the \<^verbatim>\<open>desc\<close> group when the title matches
  the conventional-commit pattern, the title otherwise) holds the word breaking in any letter
  case as a whole word, that is, with no word character right before it and none right after
  it, the commit is breaking and its category is Breaking Changes.
\<close>

theorem breaking_word_any_case:
  assumes "parse_commit title = (cc_type, breaking, description)"
    and "description = pre @ word @ post"
    and "lower word = ''breaking''"
    and "pre = [] \<or> \<not> is_word (last pre)"
    and "post = [] \<or> \<not> is_word (hd post)"
  shows "breaking \<and> map_category cc_type breaking = ''Breaking Changes''"
proof -
  have "breaking_scan None (pre @ word @ post)"
    using assms(4) by (intro breaking_scan_word [OF assms(3) assms(5)]) (auto simp add: is_word_opt_def)
  then have "breaking_search description"
    by (simp add: breaking_search_def assms(2))
  with assms(1) have breaking
    by (auto simp add: parse_commit_def split: option.splits prod.splits)
  then show ?thesis by (simp add: map_category_def)
qed

theorem breaking_word_any_case_witness:
  "parse_commit ''feat(api): this is a Breaking change'' =
     (''feat'', True, ''this is a Breaking change'') \<and>
   ''this is a Breaking change'' = ''this is a '' @ ''Breaking'' @ '' change'' \<and>
   lower ''Breaking'' = ''breaking'' \<and>
   \<not> is_word (last ''this is a '') \<and> \<not> is_word (hd '' change'') \<and>
   map_category ''feat'' True = ''Breaking Changes''"
proof -
  have p: "parse_commit ''feat(api): this is a Breaking change'' =
     (''feat'', True, ''this is a Breaking change'')" by code_simp
  have d: "''this is a Breaking change'' = ''this is a '' @ ''Breaking'' @ '' change''" by simp
  have l: "lower ''Breaking'' = ''breaking''" by code_simp
  have a: "\<not> is_word (last ''this is a '')" by code_simp
  have b: "\<not> is_word (hd '' change'')" by code_simp
  from breaking_word_any_case [OF p d l disjI2 [OF a] disjI2 [OF b]] p d l a b
  show ?thesis by blast
qed

section \<open>Properties of the title lookup\<close>

lemma digit_not_paren: "is_digit c \<Longrightarrow> c \<noteq> CHR ''('' \<and> c \<noteq> CHR '')''"
  by (auto simp add: is_digit_def)

lemma pr_marker_at_SomeD:
  assumes "pr_marker_at s = Some (n, r)"
  shows "s = ''(#'' @ n @ '')'' @ r \<and> n \<noteq> [] \<and> list_all is_digit n \<and> at_end r"
proof -
  from assms have st: "take 2 s = ''(#''"
    by (simp add: pr_marker_at_def starts_with_def numeral_2_eq_2 split: if_splits)
  from assms st have n: "n = takeWhile is_digit (drop 2 s)" and ne: "n \<noteq> []"
    and rest: "dropWhile is_digit (drop 2 s) = CHR '')'' # r" and e: "at_end r"
    by (auto simp add: pr_marker_at_def starts_with_def eat_digits_def eat_char_def
        numeral_2_eq_2 split: if_splits option.splits list.splits)
  have "s = take 2 s @ drop 2 s" by simp
  also have "drop 2 s = takeWhile is_digit (drop 2 s) @ dropWhile is_digit (drop 2 s)" by simp
  finally have "s = ''(#'' @ n @ '')'' @ r"
    using st n rest by simp
  moreover have "list_all is_digit n"
    unfolding n list_all_iff by (auto dest: set_takeWhileD)
  ultimately show ?thesis using ne e by simp
qed

lemma pr_marker_at_marker:
  assumes "n \<noteq> []" and "list_all is_digit n" and "at_end r"
  shows "pr_marker_at (''(#'' @ n @ '')'' @ r) = Some (n, r)"
proof -
  have all: "\<And>x. x \<in> set n \<Longrightarrow> is_digit x"
    using assms(2) by (simp add: list_all_iff)
  have np: "\<not> is_digit (CHR '')'')" by (simp add: is_digit_def)
  have tw: "takeWhile is_digit (n @ CHR '')'' # r) = n"
    using all np by (simp add: takeWhile_append2)
  have dw: "dropWhile is_digit (n @ CHR '')'' # r) = CHR '')'' # r"
    using all np by (simp add: dropWhile_append2)
  show ?thesis
    using assms(1,3) tw dw
    by (simp add: pr_marker_at_def starts_with_def eat_digits_def eat_char_def)
qed

lemma pr_marker_at_no_later_paren:
  assumes "pr_marker_at s = Some (n, r)"
  shows "CHR ''('' \<notin> set (tl s)"
proof -
  from pr_marker_at_SomeD [OF assms] have s: "s = ''(#'' @ n @ '')'' @ r"
    and d: "list_all is_digit n" and e: "at_end r" by simp_all
  have "CHR ''('' \<notin> set n"
    using d digit_not_paren by (auto simp add: list_all_iff)
  moreover have "CHR ''('' \<notin> set r"
    using e by (auto simp add: at_end_def)
  ultimately show ?thesis by (simp add: s)
qed

lemma pr_number_search_marker:
  assumes "n \<noteq> []" and "list_all is_digit n" and "at_end r"
  shows "pr_number_search (body @ ''(#'' @ n @ '')'' @ r) = Some n"
proof (induction body)
  case Nil
  show ?case
    using pr_marker_at_marker [OF assms] by simp
next
  case (Cons c body)
  have "CHR ''('' \<in> set (tl (c # body @ ''(#'' @ n @ '')'' @ r))" by simp
  then have "pr_marker_at (c # body @ ''(#'' @ n @ '')'' @ r) = None"
    using pr_marker_at_no_later_paren [of "c # body @ ''(#'' @ n @ '')'' @ r"]
    by (cases "pr_marker_at (c # body @ ''(#'' @ n @ '')'' @ r)") auto
  with Cons.IH show ?case by simp
qed

lemma pr_number_search_SomeD:
  "pr_number_search s = Some n \<Longrightarrow>
   \<exists>body r. s = body @ ''(#'' @ n @ '')'' @ r \<and> n \<noteq> [] \<and> list_all is_digit n \<and> at_end r"
proof (induction s)
  case Nil
  then show ?case by simp
next
  case (Cons c cs)
  show ?case
  proof (cases "pr_marker_at (c # cs)")
    case None
    with Cons.prems have "pr_number_search cs = Some n" by simp
    from Cons.IH [OF this] obtain body r where
      "cs = body @ ''(#'' @ n @ '')'' @ r" "n \<noteq> []" "list_all is_digit n" "at_end r"
      by blast
    then have "c # cs = (c # body) @ ''(#'' @ n @ '')'' @ r \<and> n \<noteq> [] \<and>
        list_all is_digit n \<and> at_end r" by simp
    then show ?thesis by blast
  next
    case (Some a)
    obtain m r where a: "a = (m, r)" by (cases a)
    with Some Cons.prems have "m = n" by simp
    with Some a have "pr_marker_at (c # cs) = Some (n, r)" by simp
    from pr_marker_at_SomeD [OF this]
    have "c # cs = [] @ ''(#'' @ n @ '')'' @ r \<and> n \<noteq> [] \<and> list_all is_digit n \<and> at_end r"
      by simp
    then show ?thesis by blast
  qed
qed


text \<open>
  Claim C9, as the code has it. A message that matches a noise pattern is dropped before any
  lookup, marker or not: no command is run and no entry results. For every other message: if
  it ends with a marker \<^verbatim>\<open>(#\<close>, digits, \<^verbatim>\<open>)\<close>, with or without a space before the marker and
  with at most one line feed after it, exactly one command is run, the lookup of the title
  for the number of the marker, and when that lookup fails (an exit status other than 0, or
  an empty result) the entry is the one classified from the message itself, nothing being
  raised; if it does not end so, no command is run and the entry is the one classified from
  the message.
\<close>

theorem title_lookup_fallback:
  assumes "parse_commit message = (cc_type, breaking, description)"
    and "cmd = (\<lambda>n. [''gh'', ''pr'', ''view'', n, ''--json'', ''title'', ''--jq'', ''.title''])"
  shows
    "(skip_search message \<longrightarrow> entry_from_commit message cfg w = (None, w)) \<and>
     (\<not> skip_search message \<longrightarrow>
        (\<forall>body n r.
           message = body @ ''(#'' @ n @ '')'' @ r \<and> n \<noteq> [] \<and> list_all is_digit n \<and>
           (r = [] \<or> r = [NL]) \<longrightarrow>
           snd (entry_from_commit message cfg w) = w\<lparr>calls := calls w @ [cmd n]\<rparr> \<and>
           (returncode (respond w (cmd n)) \<noteq> 0 \<or> strip (stdout (respond w (cmd n))) = [] \<longrightarrow>
              fst (entry_from_commit message cfg w) =
                (if \<not> breaking \<and> cc_type \<noteq> [] \<and> cc_type \<in> exclude_types cfg then None
                 else Some \<lparr>category = map_category cc_type breaking,
                            text' = ''- '' @ trailing_pr_sub (capitalise_first description) @
                              '' ([#'' @ n @ '']('' @ repo_url cfg @ ''/pull/'' @ n @ ''))''\<rparr>))) \<and>
        (\<not> (\<exists>body n r.
               message = body @ ''(#'' @ n @ '')'' @ r \<and> n \<noteq> [] \<and> list_all is_digit n \<and>
               (r = [] \<or> r = [NL])) \<longrightarrow>
           entry_from_commit message cfg w =
             (if \<not> breaking \<and> cc_type \<noteq> [] \<and> cc_type \<in> exclude_types cfg then None
              else Some \<lparr>category = map_category cc_type breaking,
                         text' = ''- '' @ trailing_pr_sub (capitalise_first description)\<rparr>,
              w)))"
proof (intro conjI allI impI)
  assume "skip_search message"
  then show "entry_from_commit message cfg w = (None, w)"
    by (simp add: entry_from_commit_def)
next
  fix body n r
  assume ns: "\<not> skip_search message"
    and m: "message = body @ ''(#'' @ n @ '')'' @ r \<and> n \<noteq> [] \<and> list_all is_digit n \<and>
      (r = [] \<or> r = [NL])"
  then have "at_end r" by (simp add: at_end_def)
  with m have n: "pr_number_search message = Some n"
    using pr_number_search_marker [of n r body] by simp
  show "snd (entry_from_commit message cfg w) = w\<lparr>calls := calls w @ [cmd n]\<rparr>"
    using assms ns n
    by (simp add: entry_from_commit_def resolve_title_def fetch_pr_title_def run_cmd_def
        subprocess_run_def Let_def split: prod.splits)
next
  fix body n r
  assume ns: "\<not> skip_search message"
    and m: "message = body @ ''(#'' @ n @ '')'' @ r \<and> n \<noteq> [] \<and> list_all is_digit n \<and>
      (r = [] \<or> r = [NL])"
    and f: "returncode (respond w (cmd n)) \<noteq> 0 \<or> strip (stdout (respond w (cmd n))) = []"
  from m have "at_end r" by (simp add: at_end_def)
  with m have n: "pr_number_search message = Some n"
    using pr_number_search_marker [of n r body] by simp
  have "resolve_title message w = (message, w\<lparr>calls := calls w @ [cmd n]\<rparr>)"
    using n f assms(2)
    by (auto simp add: resolve_title_def fetch_pr_title_def run_cmd_def subprocess_run_def)
  then show "fst (entry_from_commit message cfg w) =
      (if \<not> breaking \<and> cc_type \<noteq> [] \<and> cc_type \<in> exclude_types cfg then None
       else Some \<lparr>category = map_category cc_type breaking,
                  text' = ''- '' @ trailing_pr_sub (capitalise_first description) @
                    '' ([#'' @ n @ '']('' @ repo_url cfg @ ''/pull/'' @ n @ ''))''\<rparr>)"
    using assms(1) ns n by (simp add: entry_from_commit_def Let_def)
next
  assume ns: "\<not> skip_search message"
    and no: "\<not> (\<exists>body n r.
      message = body @ ''(#'' @ n @ '')'' @ r \<and> n \<noteq> [] \<and> list_all is_digit n \<and>
      (r = [] \<or> r = [NL]))"
  have n: "pr_number_search message = None"
  proof (cases "pr_number_search message")
    case None
    then show ?thesis .
  next
    case (Some n)
    from pr_number_search_SomeD [OF this] no show ?thesis
      by (auto simp add: at_end_def)
  qed
  then have "resolve_title message w = (message, w)"
    by (simp add: resolve_title_def)
  then show "entry_from_commit message cfg w =
      (if \<not> breaking \<and> cc_type \<noteq> [] \<and> cc_type \<in> exclude_types cfg then None
       else Some \<lparr>category = map_category cc_type breaking,
                  text' = ''- '' @ trailing_pr_sub (capitalise_first description)\<rparr>,
       w)"
    using assms(1) ns n by (simp add: entry_from_commit_def Let_def)
qed

theorem title_lookup_fallback_witness:
  "\<not> skip_search ''fix: correct off-by-one (#43)'' \<and>
   parse_commit ''fix: correct off-by-one (#43)'' = (''fix'', False, ''correct off-by-one (#43)'') \<and>
   ''fix: correct off-by-one (#43)'' = ''fix: correct off-by-one '' @ ''(#'' @ ''43'' @ '')'' @ [] \<and>
   list_all is_digit ''43'' \<and>
   returncode (respond offline_world
     [''gh'', ''pr'', ''view'', ''43'', ''--json'', ''title'', ''--jq'', ''.title'']) \<noteq> 0 \<and>
   snd (entry_from_commit ''fix: correct off-by-one (#43)'' example_cfg offline_world) =
     offline_world\<lparr>calls :=
       [[''gh'', ''pr'', ''view'', ''43'', ''--json'', ''title'', ''--jq'', ''.title'']]\<rparr> \<and>
   fst (entry_from_commit ''fix: correct off-by-one (#43)'' example_cfg offline_world) =
     Some \<lparr>category = ''Fixed'', text' = ''- Correct off-by-one ([#43](URL/pull/43))''\<rparr> \<and>
   skip_search ''Merge branch dev (#7)'' \<and>
   entry_from_commit ''Merge branch dev (#7)'' example_cfg offline_world = (None, offline_world)"
proof -
  let ?cmd = "\<lambda>n. [''gh'', ''pr'', ''view'', n, ''--json'', ''title'', ''--jq'', ''.title'']"
  have s: "\<not> skip_search ''fix: correct off-by-one (#43)''" by code_simp
  have p: "parse_commit ''fix: correct off-by-one (#43)'' =
      (''fix'', False, ''correct off-by-one (#43)'')" by code_simp
  have d: "''fix: correct off-by-one (#43)'' =
      ''fix: correct off-by-one '' @ ''(#'' @ ''43'' @ '')'' @ []" by simp
  have g: "list_all is_digit ''43''" by code_simp
  have f: "returncode (respond offline_world (?cmd ''43'')) \<noteq> 0"
    by (simp add: offline_world_def)
  have c: "calls offline_world = []" by (simp add: offline_world_def)
  have m: "map_category ''fix'' False = ''Fixed''" by code_simp
  have t: "trailing_pr_sub (capitalise_first ''correct off-by-one (#43)'') = ''Correct off-by-one''"
    by code_simp
  have x: "exclude_types example_cfg = {}" "repo_url example_cfg = ''URL''"
    by (simp_all add: example_cfg_def)
  have s2: "skip_search ''Merge branch dev (#7)''" by code_simp
  have p2: "parse_commit ''Merge branch dev (#7)'' = ('''', False, ''Merge branch dev (#7)'')"
    by code_simp
  note a = title_lookup_fallback [OF p refl, of example_cfg offline_world]
  note b = a [THEN conjunct2, THEN mp, OF s, THEN conjunct1, rule_format]
  have ne: "''43'' \<noteq> []" by simp
  note e = b [OF conjI [OF d conjI [OF ne conjI [OF g disjI1 [OF refl]]]]]
  have e1: "snd (entry_from_commit ''fix: correct off-by-one (#43)'' example_cfg offline_world) =
        offline_world\<lparr>calls := calls offline_world @ [?cmd ''43'']\<rparr>"
    by (rule e [THEN conjunct1])
  have e2: "fst (entry_from_commit ''fix: correct off-by-one (#43)'' example_cfg offline_world) =
         Some \<lparr>category = map_category ''fix'' False,
               text' = ''- '' @ trailing_pr_sub (capitalise_first ''correct off-by-one (#43)'') @
                 '' ([#'' @ ''43'' @ '']('' @ repo_url example_cfg @ ''/pull/'' @ ''43'' @ ''))''\<rparr>"
    using e [THEN conjunct2, THEN mp, OF disjI1 [OF f]] by (simp only: x empty_iff simp_thms if_False)
  have e3: "entry_from_commit ''Merge branch dev (#7)'' example_cfg offline_world =
      (None, offline_world)"
    by (rule title_lookup_fallback [OF p2 refl, THEN conjunct1, THEN mp, OF s2])
  have e2': "fst (entry_from_commit ''fix: correct off-by-one (#43)'' example_cfg offline_world) =
     Some \<lparr>category = ''Fixed'', text' = ''- Correct off-by-one ([#43](URL/pull/43))''\<rparr>"
    unfolding e2 m t x by simp
  have e1': "snd (entry_from_commit ''fix: correct off-by-one (#43)'' example_cfg offline_world) =
     offline_world\<lparr>calls :=
       [[''gh'', ''pr'', ''view'', ''43'', ''--json'', ''title'', ''--jq'', ''.title'']]\<rparr>"
    unfolding e1 c by simp
  from s p d g f e1' e2' s2 e3 show ?thesis by (intro conjI)
qed

text \<open>
  Claim C9 as stated fails twice. A message that ends with a marker and matches a noise
  pattern is dropped before any lookup: no command is run. A message whose marker follows
  its text without a space does not end with a space and a marker, yet the lookup is made.
\<close>

theorem title_lookup_counterexample:
  "''Merge branch dev (#7)'' = ''Merge branch dev'' @ '' (#7)'' \<and>
   pr_number_search ''Merge branch dev (#7)'' = Some ''7'' \<and>
   calls (snd (entry_from_commit ''Merge branch dev (#7)'' example_cfg offline_world)) = [] \<and>
   \<not> contains '' (#'' ''fix: typo(#7)'' \<and>
   calls (snd (entry_from_commit ''fix: typo(#7)'' example_cfg offline_world)) =
     [[''gh'', ''pr'', ''view'', ''7'', ''--json'', ''title'', ''--jq'', ''.title'']]"
proof -
  have a: "skip_search ''Merge branch dev (#7)''" by code_simp
  have b: "pr_number_search ''Merge branch dev (#7)'' = Some ''7''" by code_simp
  have c: "\<not> contains '' (#'' ''fix: typo(#7)''" by code_simp
  have d: "\<not> skip_search ''fix: typo(#7)''" by code_simp
  have e: "pr_number_search ''fix: typo(#7)'' = Some ''7''" by code_simp
  have f: "calls (snd (entry_from_commit ''Merge branch dev (#7)'' example_cfg offline_world)) = []"
    using a by (simp add: entry_from_commit_def offline_world_def)
  have g: "calls (snd (entry_from_commit ''fix: typo(#7)'' example_cfg offline_world)) =
     [[''gh'', ''pr'', ''view'', ''7'', ''--json'', ''title'', ''--jq'', ''.title'']]"
    using d e
    by (simp add: entry_from_commit_def resolve_title_def fetch_pr_title_def run_cmd_def
        subprocess_run_def Let_def offline_world_def split: prod.splits)
  from b c f g show ?thesis by simp
qed

section \<open>The end-to-end scenario\<close>

lemma scenario_entries:
  "fst (collect_entries None example_cfg scenario_world) =
     Inr [\<lparr>category = ''Added'', text' = ''- Add retry logic ([#42](URL/pull/42))''\<rparr>,
          \<lparr>category = ''Breaking Changes'', text' = ''- Correct off-by-one ([#43](URL/pull/43))''\<rparr>,
          \<lparr>category = ''Changed'', text' = ''- Bump deps ([#45](URL/pull/45))''\<rparr>]"
  by code_simp

lemma scenario_calls:
  "calls (snd (collect_entries None example_cfg scenario_world)) =
     [[''git'', ''log'', ''--first-parent'', ''--pretty=format:%H %s'', ''HEAD''],
      [''gh'', ''pr'', ''view'', ''42'', ''--json'', ''title'', ''--jq'', ''.title''],
      [''gh'', ''pr'', ''view'', ''43'', ''--json'', ''title'', ''--jq'', ''.title''],
      [''gh'', ''pr'', ''view'', ''45'', ''--json'', ''title'', ''--jq'', ''.title'']]"
  by code_simp

text \<open>
  Claim C8, as the code has it. On the four commits of the scenario, with no excluded type
  and no title from the lookups, the pipeline yields three entries, in the order of the log:
  one Added entry (Add retry logic), one Breaking Changes entry (Correct off-by-one) and one
  Changed entry (Bump deps). The merge commit matches a noise pattern and is dropped before
  any lookup or classification: lookups are made for the numbers 42, 43 and 45 only.
\<close>

theorem scenario_three_entries:
  "fst (collect_entries None example_cfg scenario_world) =
     Inr [\<lparr>category = ''Added'', text' = ''- Add retry logic ([#42](URL/pull/42))''\<rparr>,
          \<lparr>category = ''Breaking Changes'', text' = ''- Correct off-by-one ([#43](URL/pull/43))''\<rparr>,
          \<lparr>category = ''Changed'', text' = ''- Bump deps ([#45](URL/pull/45))''\<rparr>] \<and>
   skip_search ''Merge pull request #44 from x/y'' \<and>
   fst (entry_from_commit ''Merge pull request #44 from x/y'' example_cfg scenario_world) = None \<and>
   calls (snd (collect_entries None example_cfg scenario_world)) =
     [[''git'', ''log'', ''--first-parent'', ''--pretty=format:%H %s'', ''HEAD''],
      [''gh'', ''pr'', ''view'', ''42'', ''--json'', ''title'', ''--jq'', ''.title''],
      [''gh'', ''pr'', ''view'', ''43'', ''--json'', ''title'', ''--jq'', ''.title''],
      [''gh'', ''pr'', ''view'', ''45'', ''--json'', ''title'', ''--jq'', ''.title'']]"
proof -
  have s: "skip_search ''Merge pull request #44 from x/y''" by code_simp
  then have "fst (entry_from_commit ''Merge pull request #44 from x/y'' example_cfg
      scenario_world) = None"
    by (simp add: entry_from_commit_def)
  with s scenario_entries scenario_calls show ?thesis by simp
qed

text \<open>
  Claim C8 as stated fails: the entries of the scenario are not two, and they are not without
  an Added entry.
\<close>

theorem scenario_two_entries_counterexample:
  "\<not> (\<exists>es. fst (collect_entries None example_cfg scenario_world) = Inr es \<and> length es = 2) \<and>
   \<not> (\<exists>es. fst (collect_entries None example_cfg scenario_world) = Inr es \<and>
          filter (\<lambda>e. category e = ''Added'') es = [])"
  using scenario_entries by auto

section \<open>Properties of the tag resolution\<close>





































end
